theory Spec2Isabelle
  imports Main "HOL-Library.AList"
begin

section \<open>Batch-effect labelling of a VCF (label\_batch\_effects.PCRMinus\_only.py)\<close>

subsection \<open>Data model\<close>

text \<open>
  A genotype call is the tuple the VCF library hands out for \<^verbatim>\<open>sample['GT']\<close>: one entry
  per allele, \<open>None\<close> for a missing allele. \<^verbatim>\<open>(None, None)\<close> is \<open>[None, None]\<close>,
  \<^verbatim>\<open>(0, )\<close> is \<open>[Some 0]\<close>.
\<close>

type_synonym genotype = "int option list"

datatype field_value = VFlag bool | VInt int | VStr string

text \<open>The FORMAT fields of one sample: the genotype, and every other field.\<close>

record sample_data =
  GT :: genotype
  other_fields :: "(string \<times> field_value) list"

text \<open>
  One VCF row. \<open>id_field\<close> is \<^verbatim>\<open>record.id\<close> (\<open>None\<close> for a row without identifier),
  \<open>filter_field\<close> is \<^verbatim>\<open>record.filter\<close>, an ordered collection without repetition,
  \<open>info\<close> and \<open>samples\<close> are ordered mappings, kept as association lists.
\<close>

record variant_record =
  chrom :: string
  pos :: int
  id_field :: "string option"
  ref :: string
  alts :: "string list"
  filter_field :: "string list"
  info :: "(string \<times> field_value) list"
  samples :: "(string \<times> sample_data) list"

datatype error = ValueError | KeyError

abbreviation PCRPLUS_ENRICHED :: string where
  "PCRPLUS_ENRICHED \<equiv> ''PCRPLUS_ENRICHED''"

abbreviation PCRPLUS_DEPLETED :: string where
  "PCRPLUS_DEPLETED \<equiv> ''PCRPLUS_DEPLETED''"

abbreviation VARIABLE_ACROSS_BATCHES :: string where
  "VARIABLE_ACROSS_BATCHES \<equiv> ''VARIABLE_ACROSS_BATCHES''"

abbreviation UNSTABLE_AF_PCRPLUS :: string where
  "UNSTABLE_AF_PCRPLUS \<equiv> ''UNSTABLE_AF_PCRPLUS''"

abbreviation UNSTABLE_AF_PCRMINUS :: string where
  "UNSTABLE_AF_PCRMINUS \<equiv> ''UNSTABLE_AF_PCRMINUS''"

subsection \<open>Accessors of the VCF library used by the script\<close>

text \<open>
  \<^verbatim>\<open>record.filter.add(tag)\<close> belongs to the VCF library, which is not part of the
  repository; it is taken as the library has it (the record's FILTER list, changed by
  \<^verbatim>\<open>bcf_add_filter\<close>). A tag that is present changes nothing. The tag PASS replaces
  every tag. Any other tag replaces a FILTER that is PASS alone, and goes to the end of
  any other FILTER.
\<close>

definition bcf_add_filter :: "string \<Rightarrow> string list \<Rightarrow> string list" where
  "bcf_add_filter tag flt =
     (if tag \<in> set flt then flt
      else if tag = ''PASS'' then [''PASS'']
      else if flt = [''PASS''] then [tag]
      else flt @ [tag])"

definition filter_add :: "string \<Rightarrow> variant_record \<Rightarrow> variant_record" where
  "filter_add tag r = r\<lparr>filter_field := bcf_add_filter tag (filter_field r)\<rparr>"

text \<open>
  Modelled from the spec: \<^verbatim>\<open>record.info[key] = True\<close> belongs to the VCF library; the
  INFO field is the mapping from key to value of the data model, and the assignment sets the
  flag of that key. The preceding
  \<^verbatim>\<open>if key not in record.info.keys(): record.info.keys().append(key)\<close> appends to the
  list that \<^verbatim>\<open>keys()\<close> has just built and drops it, so the record is the same after it.
\<close>

definition info_set_flag :: "string \<Rightarrow> variant_record \<Rightarrow> variant_record" where
  "info_set_flag key r = r\<lparr>info := AList.update key (VFlag True) (info r)\<rparr>"

text \<open>
  Modelled from the spec: \<^verbatim>\<open>record.samples[samp]['GT'] = g\<close> belongs to the VCF library;
  it replaces the genotype call of the sample of that name and nothing else.
\<close>

definition set_GT :: "string \<Rightarrow> genotype \<Rightarrow> variant_record \<Rightarrow> variant_record" where
  "set_GT samp g r =
     r\<lparr>samples := map (\<lambda>(k, d). if k = samp then (k, d\<lparr>GT := g\<rparr>) else (k, d)) (samples r)\<rparr>"

subsection \<open>reclassify\_record\<close>

text \<open>Lines 17 to 30: the FILTER tags and INFO flags, one rule per label.\<close>

definition annotate :: "string list \<Rightarrow> variant_record \<Rightarrow> variant_record" where
  "annotate reclass r0 =
     (let r1 = (if PCRPLUS_ENRICHED \<in> set reclass then filter_add PCRPLUS_ENRICHED r0 else r0);
          r2 = (if PCRPLUS_DEPLETED \<in> set reclass then info_set_flag PCRPLUS_DEPLETED r1 else r1);
          r3 = (if VARIABLE_ACROSS_BATCHES \<in> set reclass
                then filter_add VARIABLE_ACROSS_BATCHES r2 else r2);
          r4 = (if UNSTABLE_AF_PCRPLUS \<in> set reclass
                then info_set_flag UNSTABLE_AF_PCRPLUS r3 else r3);
          r5 = (if UNSTABLE_AF_PCRMINUS \<in> set reclass
                then filter_add UNSTABLE_AF_PCRMINUS r4 else r4)
      in r5)"

text \<open>
  Lines 34 to 36 and 40 to 42: the two loops over \<^verbatim>\<open>record.samples\<close>, which visit the
  sample names in order.
\<close>

definition null_outside :: "string list \<Rightarrow> variant_record \<Rightarrow> variant_record" where
  "null_outside plus_samples r =
     fold (\<lambda>samp r'. if samp \<notin> set plus_samples then set_GT samp [None, None] r' else r')
       (map fst (samples r)) r"

definition null_inside :: "string list \<Rightarrow> variant_record \<Rightarrow> variant_record" where
  "null_inside plus_samples r =
     fold (\<lambda>samp r'. if samp \<in> set plus_samples then set_GT samp [None, None] r' else r')
       (map fst (samples r)) r"

text \<open>Lines 32 to 42: the genotype nulling step.\<close>

definition null_genotypes :: "string list \<Rightarrow> string list \<Rightarrow> variant_record \<Rightarrow> variant_record" where
  "null_genotypes reclass plus_samples r0 =
     (let r1 = (if PCRPLUS_ENRICHED \<in> set reclass \<or> UNSTABLE_AF_PCRPLUS \<in> set reclass
                then null_outside plus_samples r0 else r0);
          r2 = (if PCRPLUS_DEPLETED \<in> set reclass \<or> UNSTABLE_AF_PCRMINUS \<in> set reclass
                then null_inside plus_samples r1 else r1)
      in r2)"

definition reclassify_record ::
  "variant_record \<Rightarrow> string list \<Rightarrow> string list \<Rightarrow> variant_record" where
  "reclassify_record record reclass plus_samples =
     null_genotypes reclass plus_samples (annotate reclass record)"

subsection \<open>main: the classification table\<close>

text \<open>
  \<^verbatim>\<open>reclass_table\<close> is a dictionary from variant identifier to the list of its labels.
  Lines 103 to 106 (and their two copies below them) add one label.
\<close>

type_synonym reclass_table = "string \<rightharpoonup> string list"

definition add_assignment :: "reclass_table \<Rightarrow> string \<Rightarrow> string \<Rightarrow> reclass_table" where
  "add_assignment t VID assignment =
     (case t VID of
        None \<Rightarrow> t(VID \<mapsto> [assignment])
      | Some labels \<Rightarrow> t(VID \<mapsto> labels @ [assignment]))"

text \<open>
  Lines 102 to 106. A row is the list of fields the CSV reader yields for one line;
  \<^verbatim>\<open>for VID, assignment in reader\<close> raises ValueError on a row that has not two fields.
\<close>

fun read_rows :: "reclass_table \<Rightarrow> string list list \<Rightarrow> error + reclass_table" where
  "read_rows t [] = Inr t"
| "read_rows t (row # rows) =
     (case row of
        [VID, assignment] \<Rightarrow> read_rows (add_assignment t VID assignment) rows
      | _ \<Rightarrow> Inl ValueError)"

text \<open>\<^verbatim>\<open>line.rstrip('\n')\<close>.\<close>

definition rstrip_newline :: "string \<Rightarrow> string" where
  "rstrip_newline line = rev (dropWhile (\<lambda>c. c = CHR 0x0A) (rev line))"

text \<open>Lines 108 to 116 and 117 to 125: an optional list file, given by its lines.\<close>

definition add_list_file :: "string \<Rightarrow> string list option \<Rightarrow> reclass_table \<Rightarrow> reclass_table" where
  "add_list_file assignment file t =
     (case file of
        None \<Rightarrow> t
      | Some lines \<Rightarrow> fold (\<lambda>VID t'. add_assignment t' VID assignment) (map rstrip_newline lines) t)"

definition load_table ::
  "string list list \<Rightarrow> string list option \<Rightarrow> string list option \<Rightarrow> error + reclass_table" where
  "load_table rows unstable_af_pcrplus unstable_af_pcrminus =
     (case read_rows Map.empty rows of
        Inl e \<Rightarrow> Inl e
      | Inr t \<Rightarrow>
          Inr (add_list_file UNSTABLE_AF_PCRMINUS unstable_af_pcrminus
                 (add_list_file UNSTABLE_AF_PCRPLUS unstable_af_pcrplus t)))"

subsection \<open>main: the pass over the records\<close>

text \<open>Line 131: the list of PCR+ samples is empty.\<close>

definition main_plus_samples :: "string list" where
  "main_plus_samples = []"

text \<open>Line 140.\<close>

definition NULL_GTs :: "genotype list" where
  "NULL_GTs = [[Some 0, Some 0], [None, None], [Some 0], [None], [None, Some 2]]"

text \<open>
  Lines 148 to 151: the scan over the sample names of the header. \<open>Inr True\<close> is the
  write followed by \<^verbatim>\<open>break\<close>, \<open>Inr False\<close> the loop running out; looking up a name the
  record does not have raises KeyError.
\<close>

fun emit_scan :: "string list \<Rightarrow> variant_record \<Rightarrow> error + bool" where
  "emit_scan [] newrecord = Inr False"
| "emit_scan (s # ss) newrecord =
     (case map_of (samples newrecord) s of
        None \<Rightarrow> Inl KeyError
      | Some d \<Rightarrow> if GT d \<notin> set NULL_GTs then Inr True else emit_scan ss newrecord)"

text \<open>Line 142: \<^verbatim>\<open>reclass_table.get(record.id, None)\<close>.\<close>

definition table_get :: "reclass_table \<Rightarrow> string option \<Rightarrow> string list option" where
  "table_get t i = (case i of None \<Rightarrow> None | Some VID \<Rightarrow> t VID)"

text \<open>Lines 142 to 151, one record: the records written for it, or the error raised.\<close>

definition process_record ::
  "reclass_table \<Rightarrow> string list \<Rightarrow> string list \<Rightarrow> variant_record \<Rightarrow> error + variant_record list" where
  "process_record t plus_samples header_samples record =
     (case table_get t (id_field record) of
        None \<Rightarrow> Inr [record]
      | Some reclass \<Rightarrow>
          (let newrecord = reclassify_record record reclass plus_samples in
           case emit_scan header_samples newrecord of
             Inl e \<Rightarrow> Inl e
           | Inr b \<Rightarrow> Inr (if b then [newrecord] else [])))"

text \<open>
  Lines 141 to 151: the records written so far, and the error that stopped the pass,
  if one did.
\<close>

fun process_records ::
  "reclass_table \<Rightarrow> string list \<Rightarrow> string list \<Rightarrow> variant_record list
     \<Rightarrow> variant_record list \<times> error option" where
  "process_records t plus_samples header_samples [] = ([], None)"
| "process_records t plus_samples header_samples (record # records) =
     (case process_record t plus_samples header_samples record of
        Inl e \<Rightarrow> ([], Some e)
      | Inr out \<Rightarrow>
          (case process_records t plus_samples header_samples records of
             (outs, e) \<Rightarrow> (out @ outs, e)))"

text \<open>
  The whole run: the rows of the table, the two optional list files, and the input VCF as
  the sample names of its header and its records. The result is what was written to the
  output and the error that ended the run, if one did.
\<close>

definition main ::
  "string list list \<Rightarrow> string list option \<Rightarrow> string list option
     \<Rightarrow> string list \<Rightarrow> variant_record list \<Rightarrow> variant_record list \<times> error option" where
  "main rows unstable_af_pcrplus unstable_af_pcrminus header_samples vcf =
     (case load_table rows unstable_af_pcrplus unstable_af_pcrminus of
        Inl e \<Rightarrow> ([], Some e)
      | Inr reclass_table \<Rightarrow> process_records reclass_table main_plus_samples header_samples vcf)"

text \<open>
  In the VCF library the samples of a record are those of the header, in the header's
  order, and a header has no sample name twice.
\<close>

definition wf_record :: "string list \<Rightarrow> variant_record \<Rightarrow> bool" where
  "wf_record header_samples r \<longleftrightarrow>
     map fst (samples r) = header_samples \<and> distinct header_samples"

text \<open>
  The null set as the specification words it: homozygous reference, fully missing as a
  two-tuple and as a one-tuple, and the mixed-missing form.
\<close>

definition spec_NullGenotypeSet :: "genotype list" where
  "spec_NullGenotypeSet = [[Some 0, Some 0], [None, None], [None], [None, Some 2]]"

subsection \<open>Auxiliary notions for the statements\<close>

text \<open>Whether the nulling rules of lines 32 to 42 reach the sample named \<open>k\<close>.\<close>

definition nulled :: "string list \<Rightarrow> string list \<Rightarrow> string \<Rightarrow> bool" where
  "nulled reclass plus_samples k \<longleftrightarrow>
     (PCRPLUS_ENRICHED \<in> set reclass \<or> UNSTABLE_AF_PCRPLUS \<in> set reclass) \<and> k \<notin> set plus_samples
   \<or> (PCRPLUS_DEPLETED \<in> set reclass \<or> UNSTABLE_AF_PCRMINUS \<in> set reclass) \<and> k \<in> set plus_samples"

text \<open>
  \<open>tab L\<close> is the dictionary that holds the non-empty label lists of \<open>L\<close>;
  \<open>table_labels VID rows\<close> are the labels the two-field rows give to \<open>VID\<close>, in row
  order; \<open>listed_vids file\<close> are the identifiers an optional list file names.
\<close>

definition tab :: "(string \<Rightarrow> string list) \<Rightarrow> reclass_table" where
  "tab L = (\<lambda>k. if L k = [] then None else Some (L k))"

fun table_labels :: "string \<Rightarrow> string list list \<Rightarrow> string list" where
  "table_labels VID [] = []"
| "table_labels VID (row # rows) =
     (case row of
        [v, a] \<Rightarrow> (if v = VID then [a] else []) @ table_labels VID rows
      | _ \<Rightarrow> table_labels VID rows)"

definition listed_vids :: "string list option \<Rightarrow> string list" where
  "listed_vids file = (case file of None \<Rightarrow> [] | Some lines \<Rightarrow> map rstrip_newline lines)"

text \<open>A rule of lines 17 to 30 on the FILTER list: the tag is added if its label is present.\<close>

definition cond_add :: "bool \<Rightarrow> string \<Rightarrow> string list \<Rightarrow> string list" where
  "cond_add c tag flt = (if c then bcf_add_filter tag flt else flt)"

subsection \<open>Example inputs\<close>

text \<open>
  A deletion called in two diploid samples, a duplication on a haploid chromosome called as
  reference in its one sample, and a record of a VCF without samples.
\<close>

abbreviation example_record :: variant_record where
  "example_record \<equiv>
     \<lparr>chrom = ''chr1'', pos = 1000, id_field = Some ''varA'', ref = ''N'', alts = [''<DEL>''],
      filter_field = [''HIGH_SR_BACKGROUND''], info = [(''SVTYPE'', VStr ''DEL'')],
      samples = [(''S1'', \<lparr>GT = [Some 0, Some 1], other_fields = [(''GQ'', VInt 99)]\<rparr>),
                 (''S2'', \<lparr>GT = [Some 1, Some 1], other_fields = [(''GQ'', VInt 40)]\<rparr>)]\<rparr>"

abbreviation example_haploid_record :: variant_record where
  "example_haploid_record \<equiv>
     \<lparr>chrom = ''chrX'', pos = 2000, id_field = Some ''varA'', ref = ''N'', alts = [''<DUP>''],
      filter_field = [], info = [],
      samples = [(''S1'', \<lparr>GT = [Some 0], other_fields = []\<rparr>)]\<rparr>"

abbreviation example_sites_only_record :: variant_record where
  "example_sites_only_record \<equiv>
     \<lparr>chrom = ''chr2'', pos = 3000, id_field = Some ''varA'', ref = ''N'', alts = [''<INS>''],
      filter_field = [], info = [], samples = []\<rparr>"

section \<open>Properties\<close>

subsection \<open>Genotype nulling\<close>

lemma null_map_twice:
  "map (\<lambda>(k, d). if P k then (k, d\<lparr>GT := g\<rparr>) else (k, d))
     (map (\<lambda>(k, d). if Q k then (k, d\<lparr>GT := g\<rparr>) else (k, d)) xs) =
   map (\<lambda>(k, d). if Q k \<or> P k then (k, d\<lparr>GT := g\<rparr>) else (k, d)) xs"
  by (induction xs) auto

lemma null_map_none:
  "map (\<lambda>(k, d). if False then (k, d\<lparr>GT := g\<rparr>) else (k, d)) xs = xs"
  by (induction xs) auto

lemma null_map_cong:
  "(\<And>k. k \<in> fst ` set xs \<Longrightarrow> P k = Q k) \<Longrightarrow>
   map (\<lambda>(k, d). if P k then (k, d\<lparr>GT := g\<rparr>) else (k, d)) xs =
   map (\<lambda>(k, d). if Q k then (k, d\<lparr>GT := g\<rparr>) else (k, d)) xs"
  by (induction xs) auto

lemma fold_set_GT:
  "fold (\<lambda>samp r'. if P samp then set_GT samp g r' else r') ks r =
     r\<lparr>samples := map (\<lambda>(k, d). if k \<in> set ks \<and> P k then (k, d\<lparr>GT := g\<rparr>) else (k, d)) (samples r)\<rparr>"
proof (induction ks arbitrary: r)
  case Nil
  then show ?case by (simp add: null_map_none)
next
  case (Cons a ks)
  let ?f = "\<lambda>Q. map (\<lambda>(k, d). if Q k then (k, d\<lparr>GT := g\<rparr>) else (k, d))"
  show ?case
  proof (cases "P a")
    case True
    have "?f (\<lambda>k. k \<in> set ks \<and> P k) (?f (\<lambda>k. k = a) (samples r)) =
          ?f (\<lambda>k. k \<in> set (a # ks) \<and> P k) (samples r)"
      unfolding null_map_twice using True by (intro null_map_cong) auto
    with True show ?thesis
      by (simp add: Cons.IH set_GT_def del: map_map)
  next
    case False
    have "?f (\<lambda>k. k \<in> set ks \<and> P k) (samples r) =
          ?f (\<lambda>k. k \<in> set (a # ks) \<and> P k) (samples r)"
      using False by (intro null_map_cong) auto
    with False show ?thesis
      by (simp add: Cons.IH del: map_map)
  qed
qed

lemma null_outside_eq:
  "null_outside plus_samples r =
     r\<lparr>samples := map (\<lambda>(k, d). if k \<notin> set plus_samples then (k, d\<lparr>GT := [None, None]\<rparr>) else (k, d)) (samples r)\<rparr>"
  unfolding null_outside_def fold_set_GT
  by (rule arg_cong [where f = "\<lambda>x. r\<lparr>samples := x\<rparr>"], intro null_map_cong) auto

lemma null_inside_eq:
  "null_inside plus_samples r =
     r\<lparr>samples := map (\<lambda>(k, d). if k \<in> set plus_samples then (k, d\<lparr>GT := [None, None]\<rparr>) else (k, d)) (samples r)\<rparr>"
  unfolding null_inside_def fold_set_GT
  by (rule arg_cong [where f = "\<lambda>x. r\<lparr>samples := x\<rparr>"], intro null_map_cong) auto

lemma null_genotypes_eq:
  "null_genotypes reclass plus_samples r =
     r\<lparr>samples := map (\<lambda>(k, d). if nulled reclass plus_samples k then (k, d\<lparr>GT := [None, None]\<rparr>) else (k, d)) (samples r)\<rparr>"
  by (simp add: null_genotypes_def Let_def null_outside_eq null_inside_eq nulled_def
        null_map_twice null_map_none del: map_map)

lemma samples_annotate: "samples (annotate reclass r) = samples r"
  by (simp add: annotate_def Let_def filter_add_def info_set_flag_def)

lemma samples_reclassify:
  "samples (reclassify_record r reclass plus_samples) =
     map (\<lambda>(k, d). if nulled reclass plus_samples k then (k, d\<lparr>GT := [None, None]\<rparr>) else (k, d)) (samples r)"
  by (simp add: reclassify_record_def null_genotypes_eq samples_annotate)

subsection \<open>Annotations\<close>

lemma null_genotypes_fields:
  "chrom (null_genotypes reclass ps r) = chrom r"
  "pos (null_genotypes reclass ps r) = pos r"
  "id_field (null_genotypes reclass ps r) = id_field r"
  "ref (null_genotypes reclass ps r) = ref r"
  "alts (null_genotypes reclass ps r) = alts r"
  "filter_field (null_genotypes reclass ps r) = filter_field r"
  "info (null_genotypes reclass ps r) = info r"
  by (simp_all add: null_genotypes_eq)

lemma annotate_fields:
  "chrom (annotate reclass r) = chrom r"
  "pos (annotate reclass r) = pos r"
  "id_field (annotate reclass r) = id_field r"
  "ref (annotate reclass r) = ref r"
  "alts (annotate reclass r) = alts r"
  by (simp_all add: annotate_def Let_def filter_add_def info_set_flag_def)

lemma filter_field_info_set_flag: "filter_field (info_set_flag k r) = filter_field r"
  by (simp add: info_set_flag_def)

lemma info_filter_add: "info (filter_add k r) = info r"
  by (simp add: filter_add_def)

lemma filter_field_filter_add:
  "filter_field (filter_add tag r) = bcf_add_filter tag (filter_field r)"
  by (simp add: filter_add_def)

lemma tag_in_bcf_add_filter: "tag \<in> set (bcf_add_filter tag flt)"
  by (simp add: bcf_add_filter_def)

lemma filter_field_annotate:
  "filter_field (annotate reclass r) =
     cond_add (UNSTABLE_AF_PCRMINUS \<in> set reclass) UNSTABLE_AF_PCRMINUS
       (cond_add (VARIABLE_ACROSS_BATCHES \<in> set reclass) VARIABLE_ACROSS_BATCHES
         (cond_add (PCRPLUS_ENRICHED \<in> set reclass) PCRPLUS_ENRICHED (filter_field r)))"
  unfolding annotate_def Let_def cond_add_def
  by (simp add: filter_field_filter_add filter_field_info_set_flag)

lemma minus_tag_annotate:
  "UNSTABLE_AF_PCRMINUS \<in> set reclass \<Longrightarrow>
   UNSTABLE_AF_PCRMINUS \<in> set (filter_field (annotate reclass r))"
  unfolding filter_field_annotate by (simp add: cond_add_def tag_in_bcf_add_filter)

text \<open>On a FILTER that is not PASS alone, a tag other than PASS is appended.\<close>

lemma cond_add_not_pass:
  assumes "tag \<noteq> ''PASS''" and "flt \<noteq> [''PASS'']"
  shows "cond_add c tag flt \<noteq> [''PASS'']"
  using assms by (auto simp: cond_add_def bcf_add_filter_def)

lemma set_cond_add:
  assumes "tag \<noteq> ''PASS''" and "flt \<noteq> [''PASS'']"
  shows "set (cond_add c tag flt) = set flt \<union> (if c then {tag} else {})"
  using assms by (auto simp: cond_add_def bcf_add_filter_def)

lemma take_cond_add:
  assumes "tag \<noteq> ''PASS''" and "flt \<noteq> [''PASS'']" and "n \<le> length flt"
  shows "take n (cond_add c tag flt) = take n flt"
  using assms by (auto simp: cond_add_def bcf_add_filter_def)

lemma length_cond_add:
  assumes "tag \<noteq> ''PASS''" and "flt \<noteq> [''PASS'']"
  shows "length flt \<le> length (cond_add c tag flt)"
  using assms by (auto simp: cond_add_def bcf_add_filter_def)

lemma cond_add_lone_pass:
  assumes "tag \<noteq> ''PASS''"
  shows "cond_add True tag [''PASS''] = [tag]" and "cond_add False tag [''PASS''] = [''PASS'']"
  using assms by (auto simp: cond_add_def bcf_add_filter_def)

lemma tags_not_pass:
  "PCRPLUS_ENRICHED \<noteq> ''PASS''" "VARIABLE_ACROSS_BATCHES \<noteq> ''PASS''"
  "UNSTABLE_AF_PCRMINUS \<noteq> ''PASS''"
  by simp_all

lemma triggered_tags:
  "set reclass \<inter> {PCRPLUS_ENRICHED, VARIABLE_ACROSS_BATCHES, UNSTABLE_AF_PCRMINUS} =
     (if PCRPLUS_ENRICHED \<in> set reclass then {PCRPLUS_ENRICHED} else {}) \<union>
     (if VARIABLE_ACROSS_BATCHES \<in> set reclass then {VARIABLE_ACROSS_BATCHES} else {}) \<union>
     (if UNSTABLE_AF_PCRMINUS \<in> set reclass then {UNSTABLE_AF_PCRMINUS} else {})"
  by auto

lemma three_rules_append:
  assumes t1: "t1 \<noteq> ''PASS''" and t2: "t2 \<noteq> ''PASS''" and t3: "t3 \<noteq> ''PASS''"
    and flt: "flt \<noteq> [''PASS'']"
  shows "set (cond_add c3 t3 (cond_add c2 t2 (cond_add c1 t1 flt))) =
           set flt \<union> (if c1 then {t1} else {}) \<union> (if c2 then {t2} else {})
             \<union> (if c3 then {t3} else {})"
    and "take (length flt) (cond_add c3 t3 (cond_add c2 t2 (cond_add c1 t1 flt))) = flt"
proof -
  let ?f1 = "cond_add c1 t1 flt"
  let ?f2 = "cond_add c2 t2 ?f1"
  have n1: "?f1 \<noteq> [''PASS'']" using t1 flt by (rule cond_add_not_pass)
  have n2: "?f2 \<noteq> [''PASS'']" using t2 n1 by (rule cond_add_not_pass)
  have l1: "length flt \<le> length ?f1" using t1 flt by (rule length_cond_add)
  have l2: "length ?f1 \<le> length ?f2" using t2 n1 by (rule length_cond_add)
  show "set (cond_add c3 t3 ?f2) =
           set flt \<union> (if c1 then {t1} else {}) \<union> (if c2 then {t2} else {})
             \<union> (if c3 then {t3} else {})"
    unfolding set_cond_add [OF t3 n2] set_cond_add [OF t2 n1] set_cond_add [OF t1 flt] ..
  have "take (length flt) (cond_add c3 t3 ?f2) = take (length flt) ?f2"
    using t3 n2 l1 l2 by (intro take_cond_add) auto
  also have "\<dots> = take (length flt) ?f1"
    using t2 n1 l1 by (intro take_cond_add) auto
  also have "\<dots> = take (length flt) flt"
    using t1 flt by (intro take_cond_add) auto
  finally show "take (length flt) (cond_add c3 t3 ?f2) = flt" by simp
qed

lemma three_rules_lone_pass:
  assumes t1: "t1 \<noteq> ''PASS''" and t2: "t2 \<noteq> ''PASS''" and t3: "t3 \<noteq> ''PASS''"
    and some: "c1 \<or> c2 \<or> c3"
  shows "set (cond_add c3 t3 (cond_add c2 t2 (cond_add c1 t1 [''PASS'']))) =
           (if c1 then {t1} else {}) \<union> (if c2 then {t2} else {}) \<union> (if c3 then {t3} else {})"
proof -
  from some consider (first) "c1" | (second) "\<not> c1" "c2" | (third) "\<not> c1" "\<not> c2" "c3"
    by auto
  then show ?thesis
  proof cases
    case first
    have n1: "[t1] \<noteq> [''PASS'']" using t1 by simp
    have n2: "cond_add c2 t2 [t1] \<noteq> [''PASS'']" using t2 n1 by (rule cond_add_not_pass)
    have "cond_add c1 t1 [''PASS''] = [t1]"
      using first cond_add_lone_pass(1) [OF t1] by simp
    then show ?thesis
      using first by (simp add: set_cond_add [OF t3 n2] set_cond_add [OF t2 n1])
  next
    case second
    have n2: "[t2] \<noteq> [''PASS'']" using t2 by simp
    have "cond_add c2 t2 (cond_add c1 t1 [''PASS'']) = [t2]"
      using second cond_add_lone_pass(2) [OF t1] cond_add_lone_pass(1) [OF t2] by simp
    then show ?thesis
      using second by (simp add: set_cond_add [OF t3 n2])
  next
    case third
    have "cond_add c3 t3 (cond_add c2 t2 (cond_add c1 t1 [''PASS''])) = [t3]"
      using third cond_add_lone_pass(2) [OF t1] cond_add_lone_pass(2) [OF t2]
        cond_add_lone_pass(1) [OF t3] by simp
    then show ?thesis
      using third by simp
  qed
qed

lemma map_of_info_annotate:
  "map_of (info (annotate reclass r)) k =
     (if k = PCRPLUS_DEPLETED \<and> PCRPLUS_DEPLETED \<in> set reclass
         \<or> k = UNSTABLE_AF_PCRPLUS \<and> UNSTABLE_AF_PCRPLUS \<in> set reclass
      then Some (VFlag True) else map_of (info r) k)"
  unfolding annotate_def Let_def
  by (simp add: info_filter_add info_set_flag_def update_conv')

subsection \<open>Table loading and emission\<close>

lemma tab_empty: "Map.empty = tab (\<lambda>k. [])"
  by (simp add: tab_def)

lemma add_assignment_tab:
  "add_assignment (tab L) v a = tab (L(v := L v @ [a]))"
  by (auto simp: add_assignment_def tab_def fun_eq_iff)

lemma read_rows_tab:
  "\<forall>row\<in>set rows. length row = 2 \<Longrightarrow>
   read_rows (tab L) rows = Inr (tab (\<lambda>k. L k @ table_labels k rows))"
proof (induction rows arbitrary: L)
  case Nil
  then show ?case by simp
next
  case (Cons row rows)
  from Cons.prems obtain v a where row: "row = [v, a]"
    by (cases row; cases "tl row"; cases "tl (tl row)") auto
  from Cons.prems have rest: "\<forall>row\<in>set rows. length row = 2" by simp
  have a: "read_rows (tab L) (row # rows) = read_rows (tab (L(v := L v @ [a]))) rows"
    by (simp add: row add_assignment_tab)
  have b: "read_rows (tab (L(v := L v @ [a]))) rows =
             Inr (tab (\<lambda>k. (L(v := L v @ [a])) k @ table_labels k rows))"
    using rest by (rule Cons.IH)
  have c: "(\<lambda>k. (L(v := L v @ [a])) k @ table_labels k rows) =
           (\<lambda>k. L k @ table_labels k (row # rows))"
    by (auto simp: row fun_eq_iff)
  show ?case unfolding a b c ..
qed

lemma read_rows_malformed:
  "\<exists>row\<in>set rows. length row \<noteq> 2 \<Longrightarrow> read_rows t rows = Inl ValueError"
proof (induction rows arbitrary: t)
  case Nil
  then show ?case by simp
next
  case (Cons row rows)
  show ?case
  proof (cases "length row = 2")
    case True
    then obtain v a where row: "row = [v, a]"
      by (cases row; cases "tl row"; cases "tl (tl row)") auto
    from True Cons.prems have "\<exists>row\<in>set rows. length row \<noteq> 2" by simp
    then show ?thesis by (simp add: row Cons.IH)
  next
    case False
    then show ?thesis
      by (cases row; cases "tl row"; cases "tl (tl row)") auto
  qed
qed

lemma read_rows_Inr_length:
  "read_rows t rows = Inr t' \<Longrightarrow> \<forall>row\<in>set rows. length row = 2"
  using read_rows_malformed [of rows t] by auto

lemma fold_add_tab:
  "fold (\<lambda>VID t'. add_assignment t' VID a) vs (tab L) =
     tab (\<lambda>k. L k @ replicate (count_list vs k) a)"
proof (induction vs arbitrary: L)
  case Nil
  then show ?case by simp
next
  case (Cons v vs)
  have a: "fold (\<lambda>VID t'. add_assignment t' VID a) (v # vs) (tab L) =
           fold (\<lambda>VID t'. add_assignment t' VID a) vs (tab (L(v := L v @ [a])))"
    by (simp add: add_assignment_tab)
  have c: "(\<lambda>k. (L(v := L v @ [a])) k @ replicate (count_list vs k) a) =
           (\<lambda>k. L k @ replicate (count_list (v # vs) k) a)"
    by (auto simp: fun_eq_iff replicate_append_same)
  show ?case unfolding a Cons.IH c ..
qed

lemma add_list_file_tab:
  "add_list_file a file (tab L) = tab (\<lambda>k. L k @ replicate (count_list (listed_vids file) k) a)"
  by (cases "file") (simp_all add: add_list_file_def listed_vids_def fold_add_tab)

lemma load_table_eq:
  assumes "load_table rows up um = Inr t"
  shows "t = tab (\<lambda>k. table_labels k rows
                   @ replicate (count_list (listed_vids up) k) UNSTABLE_AF_PCRPLUS
                   @ replicate (count_list (listed_vids um) k) UNSTABLE_AF_PCRMINUS)"
proof -
  from assms obtain t0 where t0: "read_rows Map.empty rows = Inr t0"
    by (auto simp: load_table_def split: sum.splits)
  then have "\<forall>row\<in>set rows. length row = 2" by (rule read_rows_Inr_length)
  then have "t0 = tab (\<lambda>k. [] @ table_labels k rows)"
    using t0 read_rows_tab [of rows "\<lambda>k. []"] by (simp add: tab_empty [symmetric])
  with assms t0 show ?thesis
    by (simp add: load_table_def add_list_file_tab)
qed

lemma emit_scan_eq:
  "set hs \<subseteq> fst ` set (samples r) \<Longrightarrow>
   emit_scan hs r = Inr (\<exists>s\<in>set hs. \<exists>d. map_of (samples r) s = Some d \<and> GT d \<notin> set NULL_GTs)"
proof (induction hs)
  case Nil
  then show ?case by simp
next
  case (Cons s hs)
  from Cons.prems have "s \<in> fst ` set (samples r)" by simp
  then have "map_of (samples r) s \<noteq> None" by (simp add: map_of_eq_None_iff)
  then obtain d where d: "map_of (samples r) s = Some d" by auto
  from Cons.prems have "set hs \<subseteq> fst ` set (samples r)" by simp
  then show ?case
    by (auto simp: d Cons.IH)
qed

lemma emit_scan_wf:
  assumes "wf_record hs r"
  shows "emit_scan hs r = Inr (\<exists>d\<in>snd ` set (samples r). GT d \<notin> set NULL_GTs)"
proof -
  from assms have keys: "map fst (samples r) = hs" and dist: "distinct (map fst (samples r))"
    by (simp_all add: wf_record_def)
  have sub: "set hs \<subseteq> fst ` set (samples r)"
    using keys by auto
  have "(\<exists>s\<in>set hs. \<exists>d. map_of (samples r) s = Some d \<and> GT d \<notin> set NULL_GTs) \<longleftrightarrow>
        (\<exists>d\<in>snd ` set (samples r). GT d \<notin> set NULL_GTs)"
    using dist keys by (force simp: map_of_eq_Some_iff)
  with emit_scan_eq [OF sub] show ?thesis by simp
qed

lemma null_map_keys:
  "map fst (map (\<lambda>(k, d). if P k then (k, d\<lparr>GT := g\<rparr>) else (k, d)) xs) = map fst xs"
  by (induction xs) auto

lemma null_map_other_fields:
  "map (\<lambda>(k, d). (k, other_fields d))
     (map (\<lambda>(k, d). if P k then (k, d\<lparr>GT := g\<rparr>) else (k, d)) xs) =
   map (\<lambda>(k, d). (k, other_fields d)) xs"
  by (induction xs) auto

lemma keys_reclassify:
  "map fst (samples (reclassify_record r reclass ps)) = map fst (samples r)"
  by (simp only: samples_reclassify null_map_keys)

lemma wf_record_reclassify:
  "wf_record hs r \<Longrightarrow> wf_record hs (reclassify_record r reclass ps)"
  by (simp only: wf_record_def keys_reclassify)

lemma map_of_null_map:
  "map_of (map (\<lambda>(k, d). if k = s then (k, d\<lparr>GT := g\<rparr>) else (k, d)) xs) s =
     map_option (\<lambda>d. d\<lparr>GT := g\<rparr>) (map_of xs s)"
  by (induction xs) auto

lemmas reclassify_defs =
  reclassify_record_def annotate_def null_genotypes_def null_outside_def null_inside_def
  set_GT_def filter_add_def bcf_add_filter_def info_set_flag_def Let_def main_plus_samples_def

section \<open>The claims\<close>

text \<open>
  Claim C1, as the specification has it: a reclassified record is written exactly when some
  sample's genotype lies outside the four shapes (0, 0), (None, None), (None, ) and
  (None, 2). The list of line 140 has a fifth shape, the haploid reference call (0, ):
  a record whose only sample is called (0, ) is not written, although (0, ) is none of the
  four shapes.
\<close>

theorem emission_four_shapes_counterexample:
  "main [[''varA'', VARIABLE_ACROSS_BATCHES]] None None [''S1''] [example_haploid_record] = ([], None) \<and>
   map (GT \<circ> snd)
     (samples (reclassify_record example_haploid_record [VARIABLE_ACROSS_BATCHES] main_plus_samples))
     = [[Some 0]] \<and>
   [Some 0] \<notin> set spec_NullGenotypeSet"
  by (simp add: main_def load_table_def add_list_file_def add_assignment_def process_record_def
      table_get_def reclassify_defs NULL_GTs_def spec_NullGenotypeSet_def)

text \<open>
  Claim C1, amended: for a record that has an entry in the table and carries the samples
  of the header, the pass writes the reclassified record if some sample's genotype after
  reclassification lies outside the five shapes (0, 0), (None, None), (0, ), (None, ) and
  (None, 2), and writes nothing for it otherwise.
\<close>

theorem emission_decision:
  assumes "wf_record hs r" and "table_get t (id_field r) = Some reclass"
  shows "process_record t ps hs r =
           Inr (if \<exists>d\<in>snd ` set (samples (reclassify_record r reclass ps)).
                     GT d \<notin> {[Some 0, Some 0], [None, None], [Some 0], [None], [None, Some 2]}
                then [reclassify_record r reclass ps] else [])"
proof -
  have "wf_record hs (reclassify_record r reclass ps)"
    using assms(1) by (rule wf_record_reclassify)
  then have scan: "emit_scan hs (reclassify_record r reclass ps) =
      Inr (\<exists>d\<in>snd ` set (samples (reclassify_record r reclass ps)). GT d \<notin> set NULL_GTs)"
    by (rule emit_scan_wf)
  have null: "set NULL_GTs = {[Some 0, Some 0], [None, None], [Some 0], [None], [None, Some 2]}"
    by (simp add: NULL_GTs_def)
  show ?thesis
    by (simp add: process_record_def assms(2) Let_def scan null)
qed

theorem emission_decision_witness:
  "wf_record [''S1'', ''S2''] example_record \<and>
   table_get [''varA'' \<mapsto> [VARIABLE_ACROSS_BATCHES]] (id_field example_record)
     = Some [VARIABLE_ACROSS_BATCHES] \<and>
   process_record [''varA'' \<mapsto> [VARIABLE_ACROSS_BATCHES]] [] [''S1'', ''S2''] example_record =
     Inr [example_record\<lparr>filter_field := [''HIGH_SR_BACKGROUND'', VARIABLE_ACROSS_BATCHES]\<rparr>]"
proof -
  have h1: "wf_record [''S1'', ''S2''] example_record" by (simp add: wf_record_def)
  have h2: "table_get [''varA'' \<mapsto> [VARIABLE_ACROSS_BATCHES]] (id_field example_record)
     = Some [VARIABLE_ACROSS_BATCHES]" by (simp add: table_get_def)
  have r: "reclassify_record example_record [VARIABLE_ACROSS_BATCHES] [] =
      example_record\<lparr>filter_field := [''HIGH_SR_BACKGROUND'', VARIABLE_ACROSS_BATCHES]\<rparr>"
    by (simp add: reclassify_defs)
  show ?thesis
    using h1 h2 emission_decision [where ps = "[]", OF h1 h2]
    by (simp add: r)
qed

text \<open>
  Claim C2: with the empty list of PCR+ samples of line 131, labels that contain
  PCRPLUS\_ENRICHED or UNSTABLE\_AF\_PCRPLUS set the genotype of every sample to
  (None, None); labels among PCRPLUS\_DEPLETED and UNSTABLE\_AF\_PCRMINUS only leave every
  sample as it was, while the INFO flag PCRPLUS\_DEPLETED and the FILTER tag
  UNSTABLE\_AF\_PCRMINUS are attached for the labels present.
\<close>

theorem deployed_nulling:
  "(PCRPLUS_ENRICHED \<in> set reclass \<or> UNSTABLE_AF_PCRPLUS \<in> set reclass \<longrightarrow>
      samples (reclassify_record r reclass main_plus_samples) =
        map (\<lambda>(k, d). (k, d\<lparr>GT := [None, None]\<rparr>)) (samples r)) \<and>
   (set reclass \<subseteq> {PCRPLUS_DEPLETED, UNSTABLE_AF_PCRMINUS} \<longrightarrow>
      samples (reclassify_record r reclass main_plus_samples) = samples r \<and>
      (PCRPLUS_DEPLETED \<in> set reclass \<longrightarrow>
         map_of (info (reclassify_record r reclass main_plus_samples)) PCRPLUS_DEPLETED
           = Some (VFlag True)) \<and>
      (UNSTABLE_AF_PCRMINUS \<in> set reclass \<longrightarrow>
         UNSTABLE_AF_PCRMINUS \<in> set (filter_field (reclassify_record r reclass main_plus_samples))))"
proof -
  have all: "samples (reclassify_record r reclass main_plus_samples) =
        map (\<lambda>(k, d). (k, d\<lparr>GT := [None, None]\<rparr>)) (samples r)"
    if "PCRPLUS_ENRICHED \<in> set reclass \<or> UNSTABLE_AF_PCRPLUS \<in> set reclass"
  proof -
    have "nulled reclass main_plus_samples = (\<lambda>k. True)"
      using that by (auto simp: nulled_def main_plus_samples_def fun_eq_iff)
    then show ?thesis by (simp add: samples_reclassify)
  qed
  have none: "samples (reclassify_record r reclass main_plus_samples) = samples r"
    if "set reclass \<subseteq> {PCRPLUS_DEPLETED, UNSTABLE_AF_PCRMINUS}"
  proof -
    have "nulled reclass main_plus_samples = (\<lambda>k. False)"
      using that by (auto simp: nulled_def main_plus_samples_def fun_eq_iff)
    then show ?thesis by (simp add: samples_reclassify null_map_none)
  qed
  have flag: "map_of (info (reclassify_record r reclass main_plus_samples)) PCRPLUS_DEPLETED
           = Some (VFlag True)" if "PCRPLUS_DEPLETED \<in> set reclass"
    using that unfolding reclassify_record_def null_genotypes_fields
    by (simp add: map_of_info_annotate)
  have tag: "UNSTABLE_AF_PCRMINUS \<in> set (filter_field (reclassify_record r reclass main_plus_samples))"
    if "UNSTABLE_AF_PCRMINUS \<in> set reclass"
    using that unfolding reclassify_record_def null_genotypes_fields
    by (simp add: minus_tag_annotate)
  from all none flag tag show ?thesis by blast
qed

theorem deployed_nulling_witness:
  "PCRPLUS_ENRICHED \<in> set [PCRPLUS_ENRICHED] \<and>
   samples (reclassify_record example_record [PCRPLUS_ENRICHED] main_plus_samples) =
     [(''S1'', \<lparr>GT = [None, None], other_fields = [(''GQ'', VInt 99)]\<rparr>),
      (''S2'', \<lparr>GT = [None, None], other_fields = [(''GQ'', VInt 40)]\<rparr>)] \<and>
   set [PCRPLUS_DEPLETED, UNSTABLE_AF_PCRMINUS] \<subseteq> {PCRPLUS_DEPLETED, UNSTABLE_AF_PCRMINUS} \<and>
   samples (reclassify_record example_record [PCRPLUS_DEPLETED, UNSTABLE_AF_PCRMINUS] main_plus_samples)
     = samples example_record \<and>
   map_of (info (reclassify_record example_record [PCRPLUS_DEPLETED, UNSTABLE_AF_PCRMINUS]
                   main_plus_samples)) PCRPLUS_DEPLETED = Some (VFlag True) \<and>
   UNSTABLE_AF_PCRMINUS \<in> set (filter_field
      (reclassify_record example_record [PCRPLUS_DEPLETED, UNSTABLE_AF_PCRMINUS] main_plus_samples))"
proof -
  have h1: "PCRPLUS_ENRICHED \<in> set [PCRPLUS_ENRICHED]" by simp
  have h2: "set [PCRPLUS_DEPLETED, UNSTABLE_AF_PCRMINUS]
              \<subseteq> {PCRPLUS_DEPLETED, UNSTABLE_AF_PCRMINUS}" by simp
  have h3: "PCRPLUS_DEPLETED \<in> set [PCRPLUS_DEPLETED, UNSTABLE_AF_PCRMINUS]"
    and h4: "UNSTABLE_AF_PCRMINUS \<in> set [PCRPLUS_DEPLETED, UNSTABLE_AF_PCRMINUS]" by simp_all
  from deployed_nulling [of "[PCRPLUS_ENRICHED]" example_record] h1
  have a: "samples (reclassify_record example_record [PCRPLUS_ENRICHED] main_plus_samples) =
        map (\<lambda>(k, d). (k, d\<lparr>GT := [None, None]\<rparr>)) (samples example_record)"
    by blast
  from deployed_nulling [of "[PCRPLUS_DEPLETED, UNSTABLE_AF_PCRMINUS]" example_record] h2 h3 h4
  have b: "samples (reclassify_record example_record [PCRPLUS_DEPLETED, UNSTABLE_AF_PCRMINUS]
                      main_plus_samples) = samples example_record"
    and c: "map_of (info (reclassify_record example_record [PCRPLUS_DEPLETED, UNSTABLE_AF_PCRMINUS]
                   main_plus_samples)) PCRPLUS_DEPLETED = Some (VFlag True)"
    and d: "UNSTABLE_AF_PCRMINUS \<in> set (filter_field
      (reclassify_record example_record [PCRPLUS_DEPLETED, UNSTABLE_AF_PCRMINUS] main_plus_samples))"
    by blast+
  from a b c d h1 h2 show ?thesis by simp
qed

text \<open>
  Claim C3: with the PCR+ samples being \<open>S1\<close> alone, the labels \<open>{PCRPLUS_ENRICHED}\<close> null
  every sample but \<open>S1\<close>, the labels \<open>{PCRPLUS_DEPLETED}\<close> null \<open>S1\<close> only, and both labels
  together null every sample. In general a sample is nulled exactly when one of the two
  rules that fired reaches it: the rules combine by union.
\<close>

theorem label_union_nulling:
  "(set reclass = {PCRPLUS_ENRICHED} \<longrightarrow>
      samples (reclassify_record r reclass [S1]) =
        map (\<lambda>(k, d). if k \<noteq> S1 then (k, d\<lparr>GT := [None, None]\<rparr>) else (k, d)) (samples r)) \<and>
   (set reclass = {PCRPLUS_DEPLETED} \<longrightarrow>
      samples (reclassify_record r reclass [S1]) =
        map (\<lambda>(k, d). if k = S1 then (k, d\<lparr>GT := [None, None]\<rparr>) else (k, d)) (samples r)) \<and>
   (set reclass = {PCRPLUS_ENRICHED, PCRPLUS_DEPLETED} \<longrightarrow>
      samples (reclassify_record r reclass [S1]) =
        map (\<lambda>(k, d). (k, d\<lparr>GT := [None, None]\<rparr>)) (samples r)) \<and>
   samples (reclassify_record r reclass ps) =
     map (\<lambda>(k, d).
            if (PCRPLUS_ENRICHED \<in> set reclass \<or> UNSTABLE_AF_PCRPLUS \<in> set reclass) \<and> k \<notin> set ps
               \<or> (PCRPLUS_DEPLETED \<in> set reclass \<or> UNSTABLE_AF_PCRMINUS \<in> set reclass) \<and> k \<in> set ps
            then (k, d\<lparr>GT := [None, None]\<rparr>) else (k, d))
       (samples r)"
proof -
  have e: "nulled reclass [S1] = (\<lambda>k. k \<noteq> S1)" if "set reclass = {PCRPLUS_ENRICHED}"
    by (auto simp: nulled_def that fun_eq_iff)
  have d: "nulled reclass [S1] = (\<lambda>k. k = S1)" if "set reclass = {PCRPLUS_DEPLETED}"
    by (auto simp: nulled_def that fun_eq_iff)
  have ed: "nulled reclass [S1] = (\<lambda>k. True)"
    if "set reclass = {PCRPLUS_ENRICHED, PCRPLUS_DEPLETED}"
    by (auto simp: nulled_def that fun_eq_iff)
  show ?thesis
    using e d ed samples_reclassify [of r reclass "[S1]"] samples_reclassify [of r reclass ps]
    by (auto simp: nulled_def)
qed

theorem label_union_nulling_witness:
  "set [PCRPLUS_ENRICHED] = {PCRPLUS_ENRICHED} \<and>
   samples (reclassify_record example_record [PCRPLUS_ENRICHED] [''S1'']) =
     [(''S1'', \<lparr>GT = [Some 0, Some 1], other_fields = [(''GQ'', VInt 99)]\<rparr>),
      (''S2'', \<lparr>GT = [None, None], other_fields = [(''GQ'', VInt 40)]\<rparr>)] \<and>
   set [PCRPLUS_DEPLETED] = {PCRPLUS_DEPLETED} \<and>
   samples (reclassify_record example_record [PCRPLUS_DEPLETED] [''S1'']) =
     [(''S1'', \<lparr>GT = [None, None], other_fields = [(''GQ'', VInt 99)]\<rparr>),
      (''S2'', \<lparr>GT = [Some 1, Some 1], other_fields = [(''GQ'', VInt 40)]\<rparr>)] \<and>
   set [PCRPLUS_ENRICHED, PCRPLUS_DEPLETED] = {PCRPLUS_ENRICHED, PCRPLUS_DEPLETED} \<and>
   samples (reclassify_record example_record [PCRPLUS_ENRICHED, PCRPLUS_DEPLETED] [''S1'']) =
     [(''S1'', \<lparr>GT = [None, None], other_fields = [(''GQ'', VInt 99)]\<rparr>),
      (''S2'', \<lparr>GT = [None, None], other_fields = [(''GQ'', VInt 40)]\<rparr>)]"
proof -
  have h1: "set [PCRPLUS_ENRICHED] = {PCRPLUS_ENRICHED}"
    and h2: "set [PCRPLUS_DEPLETED] = {PCRPLUS_DEPLETED}"
    and h3: "set [PCRPLUS_ENRICHED, PCRPLUS_DEPLETED] = {PCRPLUS_ENRICHED, PCRPLUS_DEPLETED}"
    by simp_all
  from label_union_nulling [of "[PCRPLUS_ENRICHED]" example_record "''S1''"] h1
  have a: "samples (reclassify_record example_record [PCRPLUS_ENRICHED] [''S1'']) =
        map (\<lambda>(k, d). if k \<noteq> ''S1'' then (k, d\<lparr>GT := [None, None]\<rparr>) else (k, d))
          (samples example_record)"
    by blast
  from label_union_nulling [of "[PCRPLUS_DEPLETED]" example_record "''S1''"] h2
  have b: "samples (reclassify_record example_record [PCRPLUS_DEPLETED] [''S1'']) =
        map (\<lambda>(k, d). if k = ''S1'' then (k, d\<lparr>GT := [None, None]\<rparr>) else (k, d))
          (samples example_record)"
    by blast
  from label_union_nulling [of "[PCRPLUS_ENRICHED, PCRPLUS_DEPLETED]" example_record "''S1''"] h3
  have c: "samples (reclassify_record example_record [PCRPLUS_ENRICHED, PCRPLUS_DEPLETED] [''S1'']) =
        map (\<lambda>(k, d). (k, d\<lparr>GT := [None, None]\<rparr>)) (samples example_record)"
    by blast
  show ?thesis unfolding a b c by simp
qed

text \<open>
  Claim C4: a record whose identifier has no entry in the table is written as it was read,
  with all its fields, and the pass goes on with the next record.
\<close>

theorem pass_through_unchanged:
  "table_get t (id_field r) = None \<Longrightarrow>
   process_record t ps hs r = Inr [r] \<and>
   process_records t ps hs (r # rs) =
     (r # fst (process_records t ps hs rs), snd (process_records t ps hs rs))"
  by (simp add: process_record_def split: prod.splits)

theorem pass_through_unchanged_witness:
  "table_get [''varB'' \<mapsto> [PCRPLUS_ENRICHED]] (id_field example_record) = None \<and>
   process_record [''varB'' \<mapsto> [PCRPLUS_ENRICHED]] [] [''S1'', ''S2''] example_record
     = Inr [example_record]"
proof -
  have h: "table_get [''varB'' \<mapsto> [PCRPLUS_ENRICHED]] (id_field example_record) = None"
    by (simp add: table_get_def)
  show ?thesis
    using h pass_through_unchanged [where ps = "[]" and hs = "[''S1'', ''S2'']" and rs = "[]", OF h]
    by simp
qed

text \<open>
  Claim C5, as the specification has it: the FILTER tags after reclassification contain
  the tags before it. A record whose FILTER is PASS alone loses PASS when a label adds a
  tag.
\<close>

theorem filter_superset_counterexample:
  "''PASS'' \<in> set (filter_field (example_record\<lparr>filter_field := [''PASS'']\<rparr>)) \<and>
   ''PASS'' \<notin> set (filter_field
      (reclassify_record (example_record\<lparr>filter_field := [''PASS'']\<rparr>)
         [PCRPLUS_ENRICHED] main_plus_samples)) \<and>
   filter_field
      (reclassify_record (example_record\<lparr>filter_field := [''PASS'']\<rparr>)
         [PCRPLUS_ENRICHED] main_plus_samples) = [PCRPLUS_ENRICHED]"
  by (simp add: reclassify_defs)

text \<open>
  Claim C5, amended: reclassification never removes a FILTER tag other than PASS. When
  the FILTER of the record is PASS alone and a label adds a tag, the tags after are just
  those of PCRPLUS\_ENRICHED, VARIABLE\_ACROSS\_BATCHES and UNSTABLE\_AF\_PCRMINUS that are
  among the labels, and PASS is gone. In every other case the tags after contain the tags
  before: the old tags stay in front, in their order, and the tags after are the old ones
  and those of the three that are among the labels.
\<close>

theorem filter_append_only:
  "set (filter_field r) - {''PASS''} \<subseteq> set (filter_field (reclassify_record r reclass ps)) \<and>
   (filter_field r = [''PASS''] \<and>
    set reclass \<inter> {PCRPLUS_ENRICHED, VARIABLE_ACROSS_BATCHES, UNSTABLE_AF_PCRMINUS} \<noteq> {} \<longrightarrow>
      ''PASS'' \<notin> set (filter_field (reclassify_record r reclass ps)) \<and>
      set (filter_field (reclassify_record r reclass ps)) =
        set reclass \<inter> {PCRPLUS_ENRICHED, VARIABLE_ACROSS_BATCHES, UNSTABLE_AF_PCRMINUS}) \<and>
   (\<not> (filter_field r = [''PASS''] \<and>
       set reclass \<inter> {PCRPLUS_ENRICHED, VARIABLE_ACROSS_BATCHES, UNSTABLE_AF_PCRMINUS} \<noteq> {}) \<longrightarrow>
      set (filter_field r) \<subseteq> set (filter_field (reclassify_record r reclass ps)) \<and>
      take (length (filter_field r)) (filter_field (reclassify_record r reclass ps))
        = filter_field r \<and>
      set (filter_field (reclassify_record r reclass ps)) =
        set (filter_field r) \<union>
        (set reclass \<inter> {PCRPLUS_ENRICHED, VARIABLE_ACROSS_BATCHES, UNSTABLE_AF_PCRMINUS}))"
proof -
  let ?T = "set reclass \<inter> {PCRPLUS_ENRICHED, VARIABLE_ACROSS_BATCHES, UNSTABLE_AF_PCRMINUS}"
  let ?c1 = "PCRPLUS_ENRICHED \<in> set reclass"
  let ?c2 = "VARIABLE_ACROSS_BATCHES \<in> set reclass"
  let ?c3 = "UNSTABLE_AF_PCRMINUS \<in> set reclass"
  let ?F = "\<lambda>flt. cond_add ?c3 UNSTABLE_AF_PCRMINUS
              (cond_add ?c2 VARIABLE_ACROSS_BATCHES (cond_add ?c1 PCRPLUS_ENRICHED flt))"
  have after: "filter_field (reclassify_record r reclass ps) = ?F (filter_field r)"
    unfolding reclassify_record_def null_genotypes_fields by (rule filter_field_annotate)
  have T: "?T = (if ?c1 then {PCRPLUS_ENRICHED} else {}) \<union>
                (if ?c2 then {VARIABLE_ACROSS_BATCHES} else {}) \<union>
                (if ?c3 then {UNSTABLE_AF_PCRMINUS} else {})"
    by (rule triggered_tags)
  have pass_out: "''PASS'' \<notin> ?T" by simp
  have lone: "set (?F (filter_field r)) = ?T" if "filter_field r = [''PASS'']" and "?T \<noteq> {}"
  proof -
    from that(2) have "?c1 \<or> ?c2 \<or> ?c3" by auto
    from three_rules_lone_pass [OF tags_not_pass this] show ?thesis
      unfolding that(1) T .
  qed
  have other_set: "set (?F (filter_field r)) = set (filter_field r) \<union> ?T"
    and other_take: "take (length (filter_field r)) (?F (filter_field r)) = filter_field r"
    if "filter_field r \<noteq> [''PASS'']"
    using three_rules_append [OF tags_not_pass that] unfolding T by (simp_all add: Un_assoc)
  have idle: "?F (filter_field r) = filter_field r" if "?T = {}"
  proof -
    from that have "\<not> ?c1" and "\<not> ?c2" and "\<not> ?c3" by auto
    then show ?thesis by (simp add: cond_add_def)
  qed
  show ?thesis
  proof (cases "filter_field r = [''PASS'']")
    case pass: True
    show ?thesis
    proof (cases "?T = {}")
      case True
      from idle [OF True] have "filter_field (reclassify_record r reclass ps) = filter_field r"
        unfolding after .
      with True show ?thesis by simp
    next
      case False
      from lone [OF pass False] have eq: "set (filter_field (reclassify_record r reclass ps)) = ?T"
        unfolding after .
      have "set (filter_field r) - {''PASS''} = {}" using pass by simp
      with pass False pass_out show ?thesis unfolding eq by simp
    qed
  next
    case False
    from other_set [OF False] other_take [OF False]
    have eq: "set (filter_field (reclassify_record r reclass ps)) = set (filter_field r) \<union> ?T"
      and tk: "take (length (filter_field r)) (filter_field (reclassify_record r reclass ps))
                 = filter_field r"
      unfolding after by simp_all
    from False tk show ?thesis unfolding eq by auto
  qed
qed

theorem filter_append_only_witness:
  "filter_field (example_record\<lparr>filter_field := [''PASS'']\<rparr>) = [''PASS''] \<and>
   set [PCRPLUS_ENRICHED] \<inter> {PCRPLUS_ENRICHED, VARIABLE_ACROSS_BATCHES, UNSTABLE_AF_PCRMINUS}
     \<noteq> {} \<and>
   set (filter_field (reclassify_record (example_record\<lparr>filter_field := [''PASS'']\<rparr>)
                        [PCRPLUS_ENRICHED] [])) = {PCRPLUS_ENRICHED} \<and>
   filter_field example_record \<noteq> [''PASS''] \<and>
   set (filter_field example_record) \<subseteq>
     set (filter_field (reclassify_record example_record [PCRPLUS_ENRICHED] [])) \<and>
   take (length (filter_field example_record))
     (filter_field (reclassify_record example_record [PCRPLUS_ENRICHED] []))
     = [''HIGH_SR_BACKGROUND''] \<and>
   set (filter_field (reclassify_record example_record [PCRPLUS_ENRICHED] []))
     = {''HIGH_SR_BACKGROUND'', PCRPLUS_ENRICHED}"
proof -
  have h1: "filter_field (example_record\<lparr>filter_field := [''PASS'']\<rparr>) = [''PASS''] \<and>
    set [PCRPLUS_ENRICHED] \<inter> {PCRPLUS_ENRICHED, VARIABLE_ACROSS_BATCHES, UNSTABLE_AF_PCRMINUS}
      \<noteq> {}"
    by simp
  have h2: "\<not> (filter_field example_record = [''PASS''] \<and>
    set [PCRPLUS_ENRICHED] \<inter> {PCRPLUS_ENRICHED, VARIABLE_ACROSS_BATCHES, UNSTABLE_AF_PCRMINUS}
      \<noteq> {})"
    by simp
  note p = filter_append_only [of "example_record\<lparr>filter_field := [''PASS'']\<rparr>"
      "[PCRPLUS_ENRICHED]" "[]", THEN conjunct2, THEN conjunct1, THEN mp, OF h1]
  note q = filter_append_only [of example_record "[PCRPLUS_ENRICHED]" "[]",
      THEN conjunct2, THEN conjunct2, THEN mp, OF h2]
  have a: "set (filter_field (reclassify_record (example_record\<lparr>filter_field := [''PASS'']\<rparr>)
                        [PCRPLUS_ENRICHED] [])) = {PCRPLUS_ENRICHED}"
    unfolding p [THEN conjunct2] by simp
  have b: "set (filter_field (reclassify_record example_record [PCRPLUS_ENRICHED] []))
     = {''HIGH_SR_BACKGROUND'', PCRPLUS_ENRICHED}"
    unfolding q [THEN conjunct2, THEN conjunct2] by auto
  have c: "take (length (filter_field example_record))
     (filter_field (reclassify_record example_record [PCRPLUS_ENRICHED] []))
     = [''HIGH_SR_BACKGROUND'']"
    unfolding q [THEN conjunct2, THEN conjunct1] by simp
  show ?thesis
    unfolding a b c by simp
qed

text \<open>
  Claim C6: the loop of lines 34 to 36 gives every sample outside the PCR+ list the
  genotype (None, None), the loop of lines 40 to 42 every sample inside it, and the nulling
  step of lines 32 to 42 every sample that a fired rule reaches, whatever the call was; no
  other sample and no other field changes. Nulling a sample again changes nothing, and the
  nulling step run twice on a record gives the record that one run gives.
\<close>

theorem nulling_idempotent:
  "null_outside ps r =
     r\<lparr>samples := map (\<lambda>(k, d). if k \<notin> set ps then (k, d\<lparr>GT := [None, None]\<rparr>) else (k, d))
                       (samples r)\<rparr> \<and>
   null_inside ps r =
     r\<lparr>samples := map (\<lambda>(k, d). if k \<in> set ps then (k, d\<lparr>GT := [None, None]\<rparr>) else (k, d))
                       (samples r)\<rparr> \<and>
   null_genotypes reclass ps r =
     r\<lparr>samples :=
         map (\<lambda>(k, d).
                if (PCRPLUS_ENRICHED \<in> set reclass \<or> UNSTABLE_AF_PCRPLUS \<in> set reclass)
                     \<and> k \<notin> set ps
                   \<or> (PCRPLUS_DEPLETED \<in> set reclass \<or> UNSTABLE_AF_PCRMINUS \<in> set reclass)
                     \<and> k \<in> set ps
                then (k, d\<lparr>GT := [None, None]\<rparr>) else (k, d))
           (samples r)\<rparr> \<and>
   map_of (samples (set_GT s [None, None] r)) s =
     map_option (\<lambda>d. d\<lparr>GT := [None, None]\<rparr>) (map_of (samples r) s) \<and>
   set_GT s [None, None] (set_GT s [None, None] r) = set_GT s [None, None] r \<and>
   null_genotypes reclass ps (null_genotypes reclass ps r) = null_genotypes reclass ps r"
proof -
  have step: "null_genotypes reclass ps r =
     r\<lparr>samples :=
         map (\<lambda>(k, d).
                if (PCRPLUS_ENRICHED \<in> set reclass \<or> UNSTABLE_AF_PCRPLUS \<in> set reclass)
                     \<and> k \<notin> set ps
                   \<or> (PCRPLUS_DEPLETED \<in> set reclass \<or> UNSTABLE_AF_PCRMINUS \<in> set reclass)
                     \<and> k \<in> set ps
                then (k, d\<lparr>GT := [None, None]\<rparr>) else (k, d))
           (samples r)\<rparr>"
    using null_genotypes_eq [of reclass ps r] unfolding nulled_def .
  have rest: "map_of (samples (set_GT s [None, None] r)) s =
     map_option (\<lambda>d. d\<lparr>GT := [None, None]\<rparr>) (map_of (samples r) s) \<and>
   set_GT s [None, None] (set_GT s [None, None] r) = set_GT s [None, None] r \<and>
   null_genotypes reclass ps (null_genotypes reclass ps r) = null_genotypes reclass ps r"
    by (simp add: set_GT_def map_of_null_map null_genotypes_eq null_map_twice del: map_map)
  from null_outside_eq [of ps r] null_inside_eq [of ps r] step rest show ?thesis
    by (intro conjI) (erule conjunct1 conjunct2 | assumption | (drule conjunct2, erule conjunct1 conjunct2))+
qed

theorem nulling_idempotent_witness:
  "null_outside [''S1''] example_record =
     example_record\<lparr>samples :=
       [(''S1'', \<lparr>GT = [Some 0, Some 1], other_fields = [(''GQ'', VInt 99)]\<rparr>),
        (''S2'', \<lparr>GT = [None, None], other_fields = [(''GQ'', VInt 40)]\<rparr>)]\<rparr> \<and>
   null_inside [''S1''] example_record =
     example_record\<lparr>samples :=
       [(''S1'', \<lparr>GT = [None, None], other_fields = [(''GQ'', VInt 99)]\<rparr>),
        (''S2'', \<lparr>GT = [Some 1, Some 1], other_fields = [(''GQ'', VInt 40)]\<rparr>)]\<rparr> \<and>
   null_genotypes [UNSTABLE_AF_PCRMINUS] [''S1''] example_record =
     example_record\<lparr>samples :=
       [(''S1'', \<lparr>GT = [None, None], other_fields = [(''GQ'', VInt 99)]\<rparr>),
        (''S2'', \<lparr>GT = [Some 1, Some 1], other_fields = [(''GQ'', VInt 40)]\<rparr>)]\<rparr> \<and>
   null_genotypes [UNSTABLE_AF_PCRMINUS] [''S1'']
     (null_genotypes [UNSTABLE_AF_PCRMINUS] [''S1''] example_record) =
     example_record\<lparr>samples :=
       [(''S1'', \<lparr>GT = [None, None], other_fields = [(''GQ'', VInt 99)]\<rparr>),
        (''S2'', \<lparr>GT = [Some 1, Some 1], other_fields = [(''GQ'', VInt 40)]\<rparr>)]\<rparr>"
proof -
  note n = nulling_idempotent [of "[''S1'']" example_record "[UNSTABLE_AF_PCRMINUS]" "''S1''"]
  note out = n [THEN conjunct1]
  note ins = n [THEN conjunct2, THEN conjunct1]
  note step = n [THEN conjunct2, THEN conjunct2, THEN conjunct1]
  note twice = n [THEN conjunct2, THEN conjunct2, THEN conjunct2, THEN conjunct2, THEN conjunct2]
  have a: "null_outside [''S1''] example_record =
     example_record\<lparr>samples :=
       [(''S1'', \<lparr>GT = [Some 0, Some 1], other_fields = [(''GQ'', VInt 99)]\<rparr>),
        (''S2'', \<lparr>GT = [None, None], other_fields = [(''GQ'', VInt 40)]\<rparr>)]\<rparr>"
    unfolding out by simp
  have b: "null_inside [''S1''] example_record =
     example_record\<lparr>samples :=
       [(''S1'', \<lparr>GT = [None, None], other_fields = [(''GQ'', VInt 99)]\<rparr>),
        (''S2'', \<lparr>GT = [Some 1, Some 1], other_fields = [(''GQ'', VInt 40)]\<rparr>)]\<rparr>"
    unfolding ins by simp
  have c: "null_genotypes [UNSTABLE_AF_PCRMINUS] [''S1''] example_record =
     example_record\<lparr>samples :=
       [(''S1'', \<lparr>GT = [None, None], other_fields = [(''GQ'', VInt 99)]\<rparr>),
        (''S2'', \<lparr>GT = [Some 1, Some 1], other_fields = [(''GQ'', VInt 40)]\<rparr>)]\<rparr>"
    unfolding step by simp
  have d: "null_genotypes [UNSTABLE_AF_PCRMINUS] [''S1'']
     (null_genotypes [UNSTABLE_AF_PCRMINUS] [''S1''] example_record) =
     example_record\<lparr>samples :=
       [(''S1'', \<lparr>GT = [None, None], other_fields = [(''GQ'', VInt 99)]\<rparr>),
        (''S2'', \<lparr>GT = [Some 1, Some 1], other_fields = [(''GQ'', VInt 40)]\<rparr>)]\<rparr>"
    by (rule trans [OF twice c])
  from a b c d show ?thesis by (intro conjI)
qed

text \<open>
  Claim C7, as the specification has it: an identifier that the unstable-AF-PCR+ file
  lists and the main table lacks has the single label UNSTABLE\_AF\_PCRPLUS in the merged
  table. An identifier that both list files name gets both labels.
\<close>

theorem single_label_counterexample:
  "table_labels ''varC'' [] = [] \<and>
   ''varC'' \<in> set (listed_vids (Some [''varC''])) \<and>
   map_sum id (\<lambda>t. t ''varC'') (load_table [] (Some [''varC'']) (Some [''varC'']))
     = Inr (Some [UNSTABLE_AF_PCRPLUS, UNSTABLE_AF_PCRMINUS]) \<and>
   map_sum id (\<lambda>t. t ''varC'') (load_table [] (Some [''varC'']) (Some [''varC'']))
     \<noteq> Inr (Some [UNSTABLE_AF_PCRPLUS])"
  by (simp add: load_table_def add_list_file_def add_assignment_def listed_vids_def
      rstrip_newline_def)

text \<open>
  Claim C7, amended: when every row of the main table has two fields the table loads, and
  each identifier has the labels of its rows in row order, then UNSTABLE\_AF\_PCRPLUS once
  for each line of the first list file that names it, then UNSTABLE\_AF\_PCRMINUS once for
  each line of the second; nothing is deduplicated, and an identifier without any label has
  no entry. An identifier that the main table lacks, the first list file names once and
  the second does not name has the single label UNSTABLE\_AF\_PCRPLUS.
\<close>

theorem merged_table_labels:
  assumes "\<forall>row\<in>set rows. length row = 2"
  shows "\<exists>t. load_table rows up um = Inr t \<and>
     (\<forall>VID. t VID =
        (let labels = table_labels VID rows
                @ replicate (count_list (listed_vids up) VID) UNSTABLE_AF_PCRPLUS
                @ replicate (count_list (listed_vids um) VID) UNSTABLE_AF_PCRMINUS
         in if labels = [] then None else Some labels)) \<and>
     (\<forall>VID. table_labels VID rows = [] \<and> count_list (listed_vids up) VID = 1
             \<and> VID \<notin> set (listed_vids um) \<longrightarrow> t VID = Some [UNSTABLE_AF_PCRPLUS])"
proof -
  from assms obtain t0 where "read_rows (tab (\<lambda>k. [])) rows = Inr t0"
    using read_rows_tab by blast
  then obtain t where t: "load_table rows up um = Inr t"
    by (simp add: load_table_def tab_empty)
  from load_table_eq [OF t] show ?thesis
    by (auto simp: t tab_def Let_def)
qed

theorem merged_table_labels_witness:
  "list_all (\<lambda>row. length row = 2) [[''varA'', PCRPLUS_ENRICHED]] \<and>
   table_labels ''varC'' [[''varA'', PCRPLUS_ENRICHED]] = [] \<and>
   count_list (listed_vids (Some [''varC\<newline>''])) ''varC'' = 1 \<and>
   ''varC'' \<notin> set (listed_vids None) \<and>
   map_sum id (\<lambda>t. (t ''varC'', t ''varA''))
     (load_table [[''varA'', PCRPLUS_ENRICHED]] (Some [''varC\<newline>'']) None)
     = Inr (Some [UNSTABLE_AF_PCRPLUS], Some [PCRPLUS_ENRICHED])"
proof -
  have h: "\<forall>row\<in>set [[''varA'', PCRPLUS_ENRICHED]]. length row = 2" by simp
  have h1: "table_labels ''varC'' [[''varA'', PCRPLUS_ENRICHED]] = []" by simp
  have h2: "count_list (listed_vids (Some [''varC\<newline>''])) ''varC'' = 1"
    by (simp add: listed_vids_def rstrip_newline_def)
  have h3: "''varC'' \<notin> set (listed_vids None)" by (simp add: listed_vids_def)
  have h4: "table_labels ''varA'' [[''varA'', PCRPLUS_ENRICHED]] = [PCRPLUS_ENRICHED]" by simp
  have h5: "count_list (listed_vids (Some [''varC\<newline>''])) ''varA'' = 0"
    by (simp add: listed_vids_def rstrip_newline_def)
  from merged_table_labels [OF h, of "Some [''varC\<newline>'']" None]
  obtain t where t: "load_table [[''varA'', PCRPLUS_ENRICHED]] (Some [''varC\<newline>'']) None = Inr t"
    and c: "t ''varC'' = Some [UNSTABLE_AF_PCRPLUS]"
    and a: "t ''varA'' = Some [PCRPLUS_ENRICHED]"
    using h1 h2 h3 h4 h5 by (auto simp: Let_def listed_vids_def)
  from h h1 h2 h3 show ?thesis by (simp add: t c a)
qed

text \<open>
  Claim C8: a row of the table that has not exactly two fields makes the loader raise
  ValueError, and the run ends with that error and nothing written.
\<close>

theorem malformed_row_fatal:
  assumes "\<exists>row\<in>set rows. length row \<noteq> 2"
  shows "load_table rows up um = Inl ValueError \<and>
         main rows up um hs vcf = ([], Some ValueError)"
  using read_rows_malformed [OF assms, of Map.empty]
  by (simp add: load_table_def main_def)

theorem malformed_row_fatal_witness:
  "(\<exists>row\<in>set [[''varA'', PCRPLUS_ENRICHED], [''varB'']]. length row \<noteq> 2) \<and>
   main [[''varA'', PCRPLUS_ENRICHED], [''varB'']] None None [''S1'', ''S2''] [example_record]
     = ([], Some ValueError)"
proof -
  have h: "\<exists>row\<in>set [[''varA'', PCRPLUS_ENRICHED], [''varB'']]. length row \<noteq> 2" by simp
  show ?thesis
    using h malformed_row_fatal [where up = None and um = None and hs = "[''S1'', ''S2'']"
        and vcf = "[example_record]", OF h]
    by simp
qed

text \<open>
  Claim C9: reclassification leaves chromosome, position, identifier, reference and
  alternative alleles as they were, as well as every INFO key other than
  PCRPLUS\_DEPLETED and UNSTABLE\_AF\_PCRPLUS, the sample names and every field of a sample
  other than its genotype.
\<close>

theorem reclassify_frame:
  "chrom (reclassify_record r reclass ps) = chrom r \<and>
   pos (reclassify_record r reclass ps) = pos r \<and>
   id_field (reclassify_record r reclass ps) = id_field r \<and>
   ref (reclassify_record r reclass ps) = ref r \<and>
   alts (reclassify_record r reclass ps) = alts r \<and>
   (\<forall>k. k \<noteq> PCRPLUS_DEPLETED \<and> k \<noteq> UNSTABLE_AF_PCRPLUS \<longrightarrow>
        map_of (info (reclassify_record r reclass ps)) k = map_of (info r) k) \<and>
   map (\<lambda>(k, d). (k, other_fields d)) (samples (reclassify_record r reclass ps)) =
     map (\<lambda>(k, d). (k, other_fields d)) (samples r)"
  unfolding samples_reclassify null_map_other_fields
  unfolding reclassify_record_def null_genotypes_fields annotate_fields
  by (simp add: map_of_info_annotate)

theorem reclassify_frame_witness:
  "''SVTYPE'' \<noteq> PCRPLUS_DEPLETED \<and> ''SVTYPE'' \<noteq> UNSTABLE_AF_PCRPLUS \<and>
   map_of (info (reclassify_record example_record [PCRPLUS_DEPLETED, UNSTABLE_AF_PCRPLUS] [''S1'']))
     ''SVTYPE'' = Some (VStr ''DEL'') \<and>
   map (\<lambda>(k, d). (k, other_fields d))
     (samples (reclassify_record example_record [PCRPLUS_DEPLETED, UNSTABLE_AF_PCRPLUS] [''S1'']))
     = [(''S1'', [(''GQ'', VInt 99)]), (''S2'', [(''GQ'', VInt 40)])]"
proof -
  note frame = reclassify_frame [of example_record "[PCRPLUS_DEPLETED, UNSTABLE_AF_PCRPLUS]" "[''S1'']"]
  note rest = frame [THEN conjunct2, THEN conjunct2, THEN conjunct2, THEN conjunct2, THEN conjunct2]
  have h: "''SVTYPE'' \<noteq> PCRPLUS_DEPLETED \<and> ''SVTYPE'' \<noteq> UNSTABLE_AF_PCRPLUS" by simp
  have a: "map_of (info (reclassify_record example_record [PCRPLUS_DEPLETED, UNSTABLE_AF_PCRPLUS] [''S1'']))
          ''SVTYPE'' = map_of (info example_record) ''SVTYPE''"
    using h by (rule rest [THEN conjunct1, THEN spec, THEN mp])
  note b = rest [THEN conjunct2]
  show ?thesis unfolding a b using h by simp
qed

text \<open>
  Claim C10: a record of a VCF without samples that has an entry in the table is never
  written, whatever its labels are.
\<close>

theorem zero_samples_not_emitted:
  assumes "wf_record hs r" and "samples r = []"
    and "table_get t (id_field r) = Some reclass"
  shows "process_record t ps hs r = Inr [] \<and>
         process_records t ps hs (r # rs) = process_records t ps hs rs"
proof -
  from assms(1,2) have "hs = []" by (simp add: wf_record_def)
  with assms(3) have "process_record t ps hs r = Inr []"
    by (simp add: process_record_def)
  then show ?thesis by simp
qed

theorem zero_samples_not_emitted_witness:
  "wf_record [] example_sites_only_record \<and> samples example_sites_only_record = [] \<and>
   table_get [''varA'' \<mapsto> [VARIABLE_ACROSS_BATCHES]] (id_field example_sites_only_record)
     = Some [VARIABLE_ACROSS_BATCHES] \<and>
   process_record [''varA'' \<mapsto> [VARIABLE_ACROSS_BATCHES]] [] [] example_sites_only_record = Inr []"
proof -
  have h1: "wf_record [] example_sites_only_record" by (simp add: wf_record_def)
  have h2: "samples example_sites_only_record = []" by simp
  have h3: "table_get [''varA'' \<mapsto> [VARIABLE_ACROSS_BATCHES]] (id_field example_sites_only_record)
     = Some [VARIABLE_ACROSS_BATCHES]" by (simp add: table_get_def)
  show ?thesis
    using h1 h2 h3 zero_samples_not_emitted [where ps = "[]" and rs = "[]", OF h1 h2 h3]
    by simp
qed

end
